theory Spec2Isabelle
  imports Main "HOL-Library.Word"
begin

section \<open>Python values, messages and the shared state of the coordinator\<close>

text \<open>
  The development embeds \<^verbatim>\<open>server.py\<close>: the module-level variables
  \<^verbatim>\<open>current_number\<close>, \<^verbatim>\<open>found\<close>, \<^verbatim>\<open>found_number\<close>,
  \<^verbatim>\<open>clients\<close> and \<^verbatim>\<open>assigned_work\<close>, the handler
  \<^verbatim>\<open>handle_client\<close> with its two nested loops, and
  \<^verbatim>\<open>notify_all_clients\<close> and \<^verbatim>\<open>send_message\<close>.

  A connection (a socket object, used by the code as a dictionary key and compared with
  \<^verbatim>\<open>!=\<close>) is an opaque identity, a natural number here. A Python \<^verbatim>\<open>str\<close> is a
  sequence of code points, a \<^verbatim>\<open>bytes\<close> object a sequence of octets.
\<close>

type_synonym conn = nat
type_synonym byte = "8 word"
type_synonym str = "nat list"

definition lit :: "string \<Rightarrow> str" where
  "lit s = map of_char s"

text \<open>
  What \<^verbatim>\<open>json.loads\<close> can return: \<^verbatim>\<open>None\<close>, a bool, an int, a float (kept as
  its 64-bit pattern; no arithmetic on floats is modelled), a str, a list, or a dict with
  str keys (an association list read with \<^const>\<open>map_of\<close>).
\<close>

datatype pyval =
    PNone
  | PBool bool
  | PInt int
  | PFloat "64 word"
  | PStr str
  | PList "pyval list"
  | PDict "(str \<times> pyval) list"

text \<open>
  The exceptions the handler can meet. \<open>FloatArith\<close> is not a Python exception: it marks a
  run that leaves the modelled fragment, because \<^verbatim>\<open>client_cores\<close> is a float and the
  block arithmetic would go on in floating point.
\<close>

datatype error =
    JSONDecodeError
  | RecursionError
  | UnicodeDecodeError
  | UnicodeEncodeError
  | KeyError
  | TypeError
  | OSError
  | FloatArith

text \<open>The dictionary \<^verbatim>\<open>{'start': start, 'end': end}\<close> stored in \<^verbatim>\<open>assigned_work\<close>.\<close>

record work =
  w_start :: int
  w_end :: int

text \<open>The three responses the server sends; \<open>Work\<close> carries start, end and the target hash.\<close>

datatype response = Stop | No_work | Work int int str

datatype log =
    Client_connected
  | Json_decode_error
  | Registered_client pyval
  | Found_number pyval
  | Error_with_client error
  | Client_disconnected

text \<open>
  What a run does to the outside: a call of \<^verbatim>\<open>send_message(conn, response)\<close> (which
  swallows every exception of the socket, so the call itself always returns), a printed
  line, and \<^verbatim>\<open>conn.close()\<close>.
\<close>

datatype event = Send_message conn response | Print log | Close conn

record world =
  current_number :: int
  found :: bool
  found_number :: pyval
  clients :: "(conn \<times> pyval) list"
  assigned_work :: "conn \<rightharpoonup> work"
  out :: "event list"

definition TARGET_HASH :: str where
  "TARGET_HASH = lit ''EC9C0F7EDCC18A98B1F31853B1813301''"

definition START_NUMBER :: int where
  "START_NUMBER = 0"

definition END_NUMBER :: int where
  "END_NUMBER = 1 * 10 ^ 10 - 1"

definition BLOCK_SIZE_PER_CORE :: int where
  "BLOCK_SIZE_PER_CORE = 100000"

text \<open>The module's globals as the import leaves them.\<close>

definition init :: world where
  "init = \<lparr>current_number = START_NUMBER, found = False, found_number = PNone,
            clients = [], assigned_work = Map.empty, out = []\<rparr>"

subsection \<open>The Python operations the handler applies to decoded values\<close>

text \<open>
  \<^verbatim>\<open>message[key]\<close> with a str key: a dict looks the key up and raises
  \<^verbatim>\<open>KeyError\<close> when it is absent; every other JSON value raises
  \<^verbatim>\<open>TypeError\<close> (a list or a str wants integer indices, the rest is not
  subscriptable).
\<close>

fun subscr :: "pyval \<Rightarrow> str \<Rightarrow> error + pyval" where
  "subscr (PDict kvs) k = (case map_of kvs k of None \<Rightarrow> Inl KeyError | Some v \<Rightarrow> Inr v)"
| "subscr _ k = Inl TypeError"

text \<open>
  \<^verbatim>\<open>client_cores\<close> as an operand of
  \<^verbatim>\<open>current_number + BLOCK_SIZE_PER_CORE * client_cores - 1\<close>: an int is itself,
  a bool is 1 or 0, a float leaves the model, and a str, list, dict or \<^verbatim>\<open>None\<close>
  makes the product or the sum raise \<^verbatim>\<open>TypeError\<close>.
\<close>

fun int_operand :: "pyval \<Rightarrow> error + int" where
  "int_operand (PInt n) = Inr n"
| "int_operand (PBool b) = Inr (if b then 1 else 0)"
| "int_operand (PFloat f) = Inl FloatArith"
| "int_operand _ = Inl TypeError"

text \<open>
  \<^verbatim>\<open>print\<close> of an f-string that interpolates a decoded value. Standard output is
  taken to encode as UTF-8 with the strict error handler, Python's default. A str is
  written as it is, so a surrogate code point in it raises \<^verbatim>\<open>UnicodeEncodeError\<close>
  and nothing is written; every other value is formatted into ASCII digits, names and
  escaped \<^verbatim>\<open>repr\<close> text, which always encodes.
\<close>

fun print_raises :: "pyval \<Rightarrow> bool" where
  "print_raises (PStr s) = list_ex (\<lambda>c. 0xD800 \<le> c \<and> c \<le> 0xDFFF) s"
| "print_raises _ = False"

text \<open>
  \<^verbatim>\<open>bytes.decode()\<close>: strict UTF-8. A lead byte must be followed by all its
  continuation bytes inside the same \<^verbatim>\<open>bytes\<close> object; overlong forms, surrogates
  and code points above U+10FFFF are rejected. \<open>None\<close> is \<^verbatim>\<open>UnicodeDecodeError\<close>.
\<close>

definition cont :: "byte \<Rightarrow> bool" where
  "cont b = (0x80 \<le> b \<and> b \<le> 0xBF)"

fun decode :: "byte list \<Rightarrow> str option" where
  "decode [] = Some []"
| "decode (b0 # bs) =
     (if b0 < 0x80 then map_option ((#) (unat b0)) (decode bs)
      else if 0xC2 \<le> b0 \<and> b0 \<le> 0xDF then
        (case bs of
           b1 # r \<Rightarrow>
             if cont b1
             then map_option ((#) ((unat b0 - 0xC0) * 64 + (unat b1 - 0x80))) (decode r)
             else None
         | _ \<Rightarrow> None)
      else if 0xE0 \<le> b0 \<and> b0 \<le> 0xEF then
        (case bs of
           b1 # b2 # r \<Rightarrow>
             if cont b1 \<and> cont b2 \<and> (b0 = 0xE0 \<longrightarrow> 0xA0 \<le> b1) \<and> (b0 = 0xED \<longrightarrow> b1 \<le> 0x9F)
             then map_option
                    ((#) ((unat b0 - 0xE0) * 4096 + (unat b1 - 0x80) * 64 + (unat b2 - 0x80)))
                    (decode r)
             else None
         | _ \<Rightarrow> None)
      else if 0xF0 \<le> b0 \<and> b0 \<le> 0xF4 then
        (case bs of
           b1 # b2 # b3 # r \<Rightarrow>
             if cont b1 \<and> cont b2 \<and> cont b3 \<and> (b0 = 0xF0 \<longrightarrow> 0x90 \<le> b1)
                \<and> (b0 = 0xF4 \<longrightarrow> b1 \<le> 0x8F)
             then map_option
                    ((#) ((unat b0 - 0xF0) * 262144 + (unat b1 - 0x80) * 4096
                          + (unat b2 - 0x80) * 64 + (unat b3 - 0x80)))
                    (decode r)
             else None
         | _ \<Rightarrow> None)
      else None)"

section \<open>The sections of \<^verbatim>\<open>handle_client\<close> that run under the lock\<close>

text \<open>
  Lines 54 to 58, the branch for \<^verbatim>\<open>register\<close>: \<^verbatim>\<open>message['cores']\<close> becomes the
  handler's \<^verbatim>\<open>client_cores\<close> and a new dictionary is appended to \<^verbatim>\<open>clients\<close>;
  then the registration is printed, which can raise.
\<close>

definition register :: "conn \<Rightarrow> pyval \<Rightarrow> pyval \<Rightarrow> world \<Rightarrow> error option \<times> pyval \<times> world" where
  "register conn message client_cores s =
     (case subscr message (lit ''cores'') of
        Inl e \<Rightarrow> (Some e, client_cores, s)
      | Inr cores \<Rightarrow>
          (let s1 = s\<lparr>clients := clients s @ [(conn, cores)]\<rparr> in
           if print_raises cores then (Some UnicodeEncodeError, cores, s1)
           else (None, cores, s1\<lparr>out := out s1 @ [Print (Registered_client cores)]\<rparr>)))"

text \<open>
  Lines 62 to 92, the branch for \<^verbatim>\<open>request_work\<close>. The entry of \<^verbatim>\<open>conn\<close> is
  popped first; then \<^verbatim>\<open>found\<close> answers \<^verbatim>\<open>stop\<close>; otherwise the block is
  computed from \<^verbatim>\<open>current_number\<close>, and either \<^verbatim>\<open>no_work\<close> is sent or the
  cursor advances, the block is recorded and sent.
\<close>

definition request_work :: "conn \<Rightarrow> pyval \<Rightarrow> world \<Rightarrow> error option \<times> world" where
  "request_work conn client_cores s =
     (let s1 = s\<lparr>assigned_work := (assigned_work s)(conn := None)\<rparr> in
      if found s1 then (None, s1\<lparr>out := out s1 @ [Send_message conn Stop]\<rparr>)
      else
        (case int_operand client_cores of
           Inl e \<Rightarrow> (Some e, s1)
         | Inr cores \<Rightarrow>
             (let block_size = BLOCK_SIZE_PER_CORE * cores;
                  start = current_number s1;
                  end = min (current_number s1 + block_size - 1) END_NUMBER
              in if start > END_NUMBER
                 then (None, s1\<lparr>out := out s1 @ [Send_message conn No_work]\<rparr>)
                 else (None,
                       s1\<lparr>current_number := end + 1,
                          assigned_work := (assigned_work s1)(conn \<mapsto> \<lparr>w_start = start, w_end = end\<rparr>),
                          out := out s1 @ [Send_message conn (Work start end TARGET_HASH)]\<rparr>))))"

text \<open>
  Lines 96 to 103, the locked part of the branch for \<^verbatim>\<open>found\<close>. The second argument
  is the outcome of \<^verbatim>\<open>message['number']\<close>, which the code evaluates only after it has
  set \<^verbatim>\<open>found = True\<close>; the number is stored before it is printed, and the
  \<^verbatim>\<open>print\<close> can raise.
\<close>

definition record_found :: "conn \<Rightarrow> error + pyval \<Rightarrow> world \<Rightarrow> error option \<times> world" where
  "record_found conn number s =
     (let s1 = s\<lparr>assigned_work := (assigned_work s)(conn := None)\<rparr> in
      if \<not> found s1 then
        (case number of
           Inl e \<Rightarrow> (Some e, s1\<lparr>found := True\<rparr>)
         | Inr n \<Rightarrow>
             if print_raises n
             then (Some UnicodeEncodeError, s1\<lparr>found := True, found_number := n\<rparr>)
             else (None, s1\<lparr>found := True, found_number := n,
                            out := out s1 @ [Print (Found_number n)]\<rparr>))
      else (None, s1))"

text \<open>\<^verbatim>\<open>notify_all_clients\<close>: one \<^verbatim>\<open>stop\<close> per entry of \<^verbatim>\<open>clients\<close>, in order.\<close>

definition notify_all_clients :: "world \<Rightarrow> world" where
  "notify_all_clients s =
     s\<lparr>out := out s @ map (\<lambda>client. Send_message (fst client) Stop) (clients s)\<rparr>"

text \<open>
  Lines 112 to 118, the \<^verbatim>\<open>finally\<close> block: the block of \<^verbatim>\<open>conn\<close>, if any, is
  popped and the cursor set to its start; every entry of \<^verbatim>\<open>conn\<close> leaves
  \<^verbatim>\<open>clients\<close>; the socket is closed.
\<close>

definition cleanup :: "conn \<Rightarrow> world \<Rightarrow> world" where
  "cleanup conn s =
     (let s1 = (case assigned_work s conn of
                  None \<Rightarrow> s
                | Some work \<Rightarrow>
                    s\<lparr>assigned_work := (assigned_work s)(conn := None),
                      current_number := w_start work\<rparr>)
      in s1\<lparr>clients := filter (\<lambda>c. fst c \<noteq> conn) (clients s1),
            out := out s1 @ [Close conn, Print Client_disconnected]\<rparr>)"

section \<open>The handler: one message, one buffer, one connection\<close>

text \<open>
  Lines 52 to 106: the dispatch on \<^verbatim>\<open>message['type']\<close>. A message of another type
  falls through all three branches. After the locked part of \<^verbatim>\<open>found\<close> the code
  calls \<^verbatim>\<open>notify_all_clients()\<close>, whatever \<^verbatim>\<open>found\<close> was before, unless
  the locked part raised.
\<close>

definition process_message ::
  "conn \<Rightarrow> pyval \<Rightarrow> pyval \<Rightarrow> world \<Rightarrow> error option \<times> pyval \<times> world" where
  "process_message conn message client_cores s =
     (case subscr message (lit ''type'') of
        Inl e \<Rightarrow> (Some e, client_cores, s)
      | Inr t \<Rightarrow>
          if t = PStr (lit ''register'') then register conn message client_cores s
          else if t = PStr (lit ''request_work'') then
            (case request_work conn client_cores s of (e, s') \<Rightarrow> (e, client_cores, s'))
          else if t = PStr (lit ''found'') then
            (case record_found conn (subscr message (lit ''number'')) s of
               (Some e, s') \<Rightarrow> (Some e, client_cores, s')
             | (None, s') \<Rightarrow> (None, client_cores, notify_all_clients s'))
          else (None, client_cores, s))"

text \<open>A buffer that holds a line feed gets shorter when its first line is cut off.\<close>

lemma length_after_newline:
  "(10::nat) \<in> set buffer \<Longrightarrow>
     length (dropWhile (\<lambda>c. c \<noteq> 10) buffer) - Suc 0 < length buffer"
proof -
  assume "(10::nat) \<in> set buffer"
  then have "dropWhile (\<lambda>c. c \<noteq> 10) buffer \<noteq> []"
    by (auto simp: dropWhile_eq_Nil_conv)
  then have "length (dropWhile (\<lambda>c. c \<noteq> 10) buffer) - Suc 0
      < length (dropWhile (\<lambda>c. c \<noteq> 10) buffer)"
    by simp
  also have "\<dots> \<le> length buffer"
    by (rule length_dropWhile_le)
  finally show ?thesis .
qed

text \<open>
  Lines 44 to 50 and the loop around the dispatch: while the buffer holds a line feed, the
  text before the first one is handed to \<^verbatim>\<open>json.loads\<close> (a parameter here: \<open>Inr\<close> the
  decoded value, \<open>Inl\<close> the exception). Only \<^verbatim>\<open>JSONDecodeError\<close> is caught inside
  the loop; any other exception leaves it.
\<close>

function process_buffer ::
  "(str \<Rightarrow> error + pyval) \<Rightarrow> conn \<Rightarrow> str \<Rightarrow> pyval \<Rightarrow> world \<Rightarrow> error option \<times> str \<times> pyval \<times> world"
where
  "process_buffer loads conn buffer client_cores s =
     (if 10 \<in> set buffer then
        (let message_str = takeWhile (\<lambda>c. c \<noteq> 10) buffer;
             buffer' = tl (dropWhile (\<lambda>c. c \<noteq> 10) buffer)
         in case loads message_str of
              Inl e \<Rightarrow>
                if e = JSONDecodeError
                then process_buffer loads conn buffer' client_cores
                       (s\<lparr>out := out s @ [Print Json_decode_error]\<rparr>)
                else (Some e, buffer', client_cores, s)
            | Inr message \<Rightarrow>
                (case process_message conn message client_cores s of
                   (Some e, cc, s') \<Rightarrow> (Some e, buffer', cc, s')
                 | (None, cc, s') \<Rightarrow> process_buffer loads conn buffer' cc s'))
      else (None, buffer, client_cores, s))"
  by pat_completeness auto

termination process_buffer
  by (relation "measure (\<lambda>(loads, conn, buffer, client_cores, s). length buffer)")
     (simp_all add: length_after_newline)

text \<open>
  Lines 38 to 43, the outer loop, over what \<^verbatim>\<open>conn.recv(1024)\<close> returns call after
  call: a chunk of bytes or an exception of the socket. The empty chunk, and the end of
  the list, is the peer closing the connection.
\<close>

datatype recv = Data "byte list" | Recv_error

fun recv_loop ::
  "(str \<Rightarrow> error + pyval) \<Rightarrow> conn \<Rightarrow> recv list \<Rightarrow> str \<Rightarrow> pyval \<Rightarrow> world \<Rightarrow> error option \<times> world"
where
  "recv_loop loads conn [] buffer client_cores s = (None, s)"
| "recv_loop loads conn (Recv_error # rest) buffer client_cores s = (Some OSError, s)"
| "recv_loop loads conn (Data bs # rest) buffer client_cores s =
     (case decode bs of
        None \<Rightarrow> (Some UnicodeDecodeError, s)
      | Some data \<Rightarrow>
          if data = [] then (None, s)
          else
            (case process_buffer loads conn (buffer @ data) client_cores s of
               (Some e, b, cc, s') \<Rightarrow> (Some e, s')
             | (None, b, cc, s') \<Rightarrow> recv_loop loads conn rest b cc s'))"

text \<open>
  \<^verbatim>\<open>handle_client\<close>: the loops inside \<^verbatim>\<open>try\<close>, the \<^verbatim>\<open>except\<close> that prints, the
  \<^verbatim>\<open>finally\<close> that cleans up. The result is \<open>None\<close> only where the run left the
  modelled fragment through float arithmetic.
\<close>

definition handle_client :: "(str \<Rightarrow> error + pyval) \<Rightarrow> conn \<Rightarrow> recv list \<Rightarrow> world \<Rightarrow> world option" where
  "handle_client loads conn chunks s =
     (case recv_loop loads conn chunks [] (PInt 1) (s\<lparr>out := out s @ [Print Client_connected]\<rparr>) of
        (Some FloatArith, s') \<Rightarrow> None
      | (Some e, s') \<Rightarrow> Some (cleanup conn (s'\<lparr>out := out s' @ [Print (Error_with_client e)]\<rparr>))
      | (None, s') \<Rightarrow> Some (cleanup conn s'))"

section \<open>Runs of the coordinator\<close>

text \<open>
  Every section above runs under the one lock, so a run of the server with any number of
  handler threads is a sequence of these sections in some order. An action names the
  section and the handler that runs it, with the handler's local values
  (\<^verbatim>\<open>message\<close>, \<^verbatim>\<open>client_cores\<close>, the outcome of \<^verbatim>\<open>message['number']\<close>).

  A step gives the state the section leaves behind, whether it returned or raised. A
  \<^verbatim>\<open>request_work\<close> that would go on in floating point has no modelled next state:
  the step, and the run from there on, is \<open>None\<close>.
\<close>

datatype action =
    Register conn pyval pyval
  | Request_work conn pyval
  | Record_found conn "error + pyval"
  | Notify_all_clients
  | Cleanup conn

fun step :: "action \<Rightarrow> world \<Rightarrow> world option" where
  "step (Register conn message client_cores) s =
     Some (snd (snd (register conn message client_cores s)))"
| "step (Request_work conn client_cores) s =
     (case request_work conn client_cores s of
        (e, s') \<Rightarrow> if e = Some FloatArith then None else Some s')"
| "step (Record_found conn number) s = Some (snd (record_found conn number s))"
| "step Notify_all_clients s = Some (notify_all_clients s)"
| "step (Cleanup conn) s = Some (cleanup conn s)"

fun run :: "action list \<Rightarrow> world \<Rightarrow> world option" where
  "run [] s = Some s"
| "run (a # acts) s = (case step a s of None \<Rightarrow> None | Some s' \<Rightarrow> run acts s')"

text \<open>The blocks of the \<^verbatim>\<open>work\<close> responses of a trace, in the order they were sent.\<close>

fun works :: "event list \<Rightarrow> (int \<times> int) list" where
  "works [] = []"
| "works (Send_message conn (Work a b h) # es) = (a, b) # works es"
| "works (e # es) = works es"

text \<open>
  \<open>tiles lo bs hi\<close>: the blocks \<open>bs\<close>, each non-empty, follow one another without a gap or
  an overlap from \<open>lo\<close> up to and excluding \<open>hi\<close>.
\<close>

fun tiles :: "int \<Rightarrow> (int \<times> int) list \<Rightarrow> int \<Rightarrow> bool" where
  "tiles lo [] hi = (lo = hi)"
| "tiles lo ((a, b) # bs) hi = (a = lo \<and> a \<le> b \<and> tiles (b + 1) bs hi)"

text \<open>
  The state of a run that has only allocated so far: no match yet, the cursor at most one
  past \<^verbatim>\<open>END_NUMBER\<close>, the blocks sent tiling the range from 0 up to the cursor, and
  \<^verbatim>\<open>no_work\<close> sent only once the cursor has passed \<^verbatim>\<open>END_NUMBER\<close>.
\<close>

definition covering :: "world \<Rightarrow> bool" where
  "covering s \<longleftrightarrow>
     \<not> found s \<and> current_number s \<le> END_NUMBER + 1
     \<and> tiles 0 (works (out s)) (current_number s)
     \<and> ((\<exists>c. Send_message c No_work \<in> set (out s)) \<longrightarrow> current_number s = END_NUMBER + 1)"


section \<open>Evaluation and general facts\<close>

lemmas ev = request_work_def init_def START_NUMBER_def END_NUMBER_def
  BLOCK_SIZE_PER_CORE_def Let_def record_found_def cleanup_def notify_all_clients_def
  register_def

lemma works_append: "works (xs @ ys) = works xs @ works ys"
  by (induction xs rule: works.induct) auto

lemma tiles_snoc: "tiles lo (bs @ [(a, b)]) hi \<longleftrightarrow> tiles lo bs a \<and> a \<le> b \<and> hi = b + 1"
  by (induction lo bs a rule: tiles.induct) auto

lemma tiles_bounds:
  "tiles lo bs hi \<Longrightarrow> lo \<le> hi \<and> (\<forall>b \<in> set bs. lo \<le> fst b \<and> fst b \<le> snd b \<and> snd b < hi)"
  by (induction lo bs hi rule: tiles.induct) fastforce+

lemma tiles_disjoint: "tiles lo bs hi \<Longrightarrow> sorted_wrt (\<lambda>x y. snd x < fst y) bs"
proof (induction lo bs hi rule: tiles.induct)
  case (1 lo hi)
  then show ?case by simp
next
  case (2 lo a b bs hi)
  then have t: "tiles (b + 1) bs hi" by simp
  from tiles_bounds [OF t] have "\<forall>y \<in> set bs. b < fst y" by auto
  with 2 t show ?case by simp
qed

section \<open>Allocation of a block\<close>

text \<open>
  C4. While \<^verbatim>\<open>found\<close> is false, a \<^verbatim>\<open>request_work\<close> of \<open>conn\<close> with an integer
  core count raises nothing and leaves \<^verbatim>\<open>found\<close>, \<^verbatim>\<open>found_number\<close> and
  \<^verbatim>\<open>clients\<close> alone. If the cursor is beyond \<^verbatim>\<open>END_NUMBER\<close> it answers
  \<^verbatim>\<open>no_work\<close>, keeps the cursor and only drops the entry of \<open>conn\<close>. Otherwise it
  answers \<^verbatim>\<open>work\<close> with \<open>start\<close> the cursor and \<open>end\<close> the smaller of
  \<open>cursor + BLOCK_SIZE_PER_CORE * cores - 1\<close> and \<^verbatim>\<open>END_NUMBER\<close>, moves the cursor to
  \<open>end + 1\<close>, and the entry of \<open>conn\<close> becomes this block, whatever it was before (the
  earlier entry does not move the cursor back).
\<close>

theorem request_work_not_found:
  assumes "\<not> found s" and "request_work conn (PInt cores) s = (e, s')"
  shows "e = None \<and> found s' = found s \<and> found_number s' = found_number s
    \<and> clients s' = clients s \<and>
    (if current_number s > END_NUMBER
     then out s' = out s @ [Send_message conn No_work] \<and> current_number s' = current_number s
          \<and> assigned_work s' = (assigned_work s)(conn := None)
     else out s' = out s @ [Send_message conn
              (Work (current_number s)
                 (min (current_number s + BLOCK_SIZE_PER_CORE * cores - 1) END_NUMBER) TARGET_HASH)]
          \<and> current_number s' = min (current_number s + BLOCK_SIZE_PER_CORE * cores - 1) END_NUMBER + 1
          \<and> assigned_work s' = (assigned_work s)(conn \<mapsto>
               \<lparr>w_start = current_number s,
                w_end = min (current_number s + BLOCK_SIZE_PER_CORE * cores - 1) END_NUMBER\<rparr>))"
  using assms by (auto simp: request_work_def Let_def split: if_splits)

theorem request_work_not_found_witness:
  "\<not> found init \<and> fst (request_work 1 (PInt 2) init) = None
   \<and> current_number (snd (request_work 1 (PInt 2) init)) = 200000
   \<and> out (snd (request_work 1 (PInt 2) init)) = [Send_message 1 (Work 0 199999 TARGET_HASH)]
   \<and> assigned_work (snd (request_work 1 (PInt 2) init)) 1 = Some \<lparr>w_start = 0, w_end = 199999\<rparr>"
  using request_work_not_found [of init 1 2 "fst (request_work 1 (PInt 2) init)"
      "snd (request_work 1 (PInt 2) init)"]
  by (simp add: init_def START_NUMBER_def END_NUMBER_def BLOCK_SIZE_PER_CORE_def)

section \<open>A reported match\<close>

text \<open>
  C8. The locked part of the \<^verbatim>\<open>found\<close> branch, run by \<open>conn\<close> in any state (whatever
  \<^verbatim>\<open>found\<close> was, and whether or not \<^verbatim>\<open>message['number']\<close> raises), leaves the
  cursor and the entries of all other connections as they were and leaves \<open>conn\<close> without
  an entry. The upper bound \<^verbatim>\<open>END_NUMBER\<close> is a constant of the module and no part of
  the state.
\<close>

theorem record_found_frame:
  assumes "record_found conn number s = (e, s')"
  shows "current_number s' = current_number s \<and> clients s' = clients s
     \<and> assigned_work s' conn = None
     \<and> (\<forall>c. c \<noteq> conn \<longrightarrow> assigned_work s' c = assigned_work s c)"
  using assms by (auto simp: record_found_def Let_def split: if_splits sum.splits)

theorem record_found_frame_witness:
  "current_number (snd (record_found 1 (Inr (PInt 42))
       (snd (request_work 2 (PInt 1) (snd (request_work 1 (PInt 1) init)))))) = 200000
   \<and> assigned_work (snd (record_found 1 (Inr (PInt 42))
       (snd (request_work 2 (PInt 1) (snd (request_work 1 (PInt 1) init)))))) 1 = None
   \<and> assigned_work (snd (record_found 1 (Inr (PInt 42))
       (snd (request_work 2 (PInt 1) (snd (request_work 1 (PInt 1) init)))))) 2
       = Some \<lparr>w_start = 100000, w_end = 199999\<rparr>"
  using record_found_frame [of 1 "Inr (PInt 42)"
     "snd (request_work 2 (PInt 1) (snd (request_work 1 (PInt 1) init)))"
     "fst (record_found 1 (Inr (PInt 42))
        (snd (request_work 2 (PInt 1) (snd (request_work 1 (PInt 1) init)))))"
     "snd (record_found 1 (Inr (PInt 42))
        (snd (request_work 2 (PInt 1) (snd (request_work 1 (PInt 1) init)))))"]
  by (simp add: request_work_def init_def START_NUMBER_def END_NUMBER_def
      BLOCK_SIZE_PER_CORE_def Let_def)

section \<open>Found is monotone\<close>

lemma step_found:
  "found s \<Longrightarrow> \<exists>s'. step a s = Some s' \<and> found s' \<and> found_number s' = found_number s"
  by (cases a)
     (auto simp: register_def request_work_def record_found_def notify_all_clients_def
        cleanup_def Let_def split: sum.splits option.splits)

lemma run_found:
  "found s \<Longrightarrow> \<exists>s'. run acts s = Some s' \<and> found s' \<and> found_number s' = found_number s"
proof (induction acts arbitrary: s)
  case Nil
  then show ?case by simp
next
  case (Cons a acts)
  from step_found [OF Cons.prems, of a] obtain s1
    where s1: "step a s = Some s1" "found s1" "found_number s1 = found_number s"
    by blast
  from Cons.IH [OF s1(2)] s1 show ?case
    by auto
qed

text \<open>
  C2. Let the \<^verbatim>\<open>found\<close> branch of \<open>conn\<close> run with number \<open>V\<close> while \<^verbatim>\<open>found\<close> is
  false. Then \<^verbatim>\<open>found\<close> is true and \<^verbatim>\<open>found_number\<close> is \<open>V\<close>; any further sequence
  of locked sections run by any handlers stays inside the model and ends in a state where
  they are still so. In every such later state a further \<^verbatim>\<open>found\<close> report of any
  connection \<open>c\<close> with any number changes nothing but the entry of \<open>c\<close> (the branch
  \<^verbatim>\<open>if not found\<close> is not taken: nothing is printed, \<^verbatim>\<open>found_number\<close> keeps \<open>V\<close>),
  and a \<^verbatim>\<open>request_work\<close> of any connection with any core count is answered
  \<^verbatim>\<open>stop\<close>.
\<close>

theorem found_is_monotone:
  assumes "\<not> found s" and "record_found conn (Inr V) s = (e, s1)"
  shows "found s1 \<and> found_number s1 = V
    \<and> (\<exists>s2. run acts s1 = Some s2 \<and> found s2 \<and> found_number s2 = V
          \<and> record_found c number s2
              = (None, s2\<lparr>assigned_work := (assigned_work s2)(c := None)\<rparr>)
          \<and> request_work c client_cores s2
              = (None, s2\<lparr>assigned_work := (assigned_work s2)(c := None),
                          out := out s2 @ [Send_message c Stop]\<rparr>))"
proof -
  from assms have s1: "found s1" "found_number s1 = V"
    by (auto simp: record_found_def Let_def split: if_splits)
  from run_found [OF s1(1), of acts] s1(2) obtain s2
    where s2: "run acts s1 = Some s2" "found s2" "found_number s2 = V"
    by auto
  from s2(2) have "record_found c number s2
      = (None, s2\<lparr>assigned_work := (assigned_work s2)(c := None)\<rparr>)"
    by (simp add: record_found_def Let_def)
  moreover from s2(2) have "request_work c client_cores s2
        = (None, s2\<lparr>assigned_work := (assigned_work s2)(c := None),
                    out := out s2 @ [Send_message c Stop]\<rparr>)"
    by (simp add: request_work_def Let_def)
  ultimately show ?thesis using s1 s2 by blast
qed

theorem found_is_monotone_witness:
  "case run [Record_found 2 (Inr (PInt 7)), Request_work 3 (PInt 1), Cleanup 1]
          (snd (record_found 1 (Inr (PInt 42)) init)) of
     None \<Rightarrow> False
   | Some s2 \<Rightarrow> found s2 \<and> found_number s2 = PInt 42"
proof -
  have nf: "\<not> found init"
    by (simp add: init_def)
  from found_is_monotone [OF nf surjective_pairing, of 1 "PInt 42"
      "[Record_found 2 (Inr (PInt 7)), Request_work 3 (PInt 1), Cleanup 1]"]
  obtain s2 where "run [Record_found 2 (Inr (PInt 7)), Request_work 3 (PInt 1), Cleanup 1]
          (snd (record_found 1 (Inr (PInt 42)) init)) = Some s2"
    and "found s2" and "found_number s2 = PInt 42"
    by blast
  then show ?thesis
    by simp
qed

section \<open>Allocations tile the range\<close>

lemma covering_init: "covering init"
  by (simp add: covering_def init_def START_NUMBER_def END_NUMBER_def)

lemma covering_request:
  assumes "covering s" and "1 \<le> n"
  shows "\<exists>s'. step (Request_work c (PInt n)) s = Some s' \<and> covering s'"
proof (cases "current_number s > END_NUMBER")
  case True
  with assms show ?thesis
    by (auto simp: covering_def request_work_def Let_def works_append)
next
  case False
  from assms(2) have "0 < BLOCK_SIZE_PER_CORE * n"
    by (simp add: BLOCK_SIZE_PER_CORE_def)
  with False
  have le: "current_number s \<le> min (current_number s + BLOCK_SIZE_PER_CORE * n - 1) END_NUMBER"
    by simp
  from False assms(1) have nw: "\<And>c. Send_message c No_work \<notin> set (out s)"
    by (auto simp: covering_def)
  from False assms(1) le nw show ?thesis
    by (simp add: covering_def request_work_def Let_def works_append tiles_snoc)
qed

lemma covering_run:
  assumes "covering s" and "\<forall>(c, n) \<in> set reqs. 1 \<le> n"
  shows "\<exists>s'. run (map (\<lambda>(c, n). Request_work c (PInt n)) reqs) s = Some s' \<and> covering s'"
  using assms
proof (induction reqs arbitrary: s)
  case Nil
  then show ?case by simp
next
  case (Cons r reqs)
  obtain c n where r: "r = (c, n)"
    by (cases r)
  with Cons.prems have "1 \<le> n"
    by simp
  from covering_request [OF Cons.prems(1) this, of c] obtain s1
    where s1: "step (Request_work c (PInt n)) s = Some s1" "covering s1"
    by blast
  from Cons.prems(2) have "\<forall>(c, n) \<in> set reqs. 1 \<le> n"
    by simp
  from Cons.IH [OF s1(2) this] s1(1) r show ?case
    by (simp del: step.simps)
qed

text \<open>
  C3, as the code has it. Start from the initial state and let any connections send
  \<^verbatim>\<open>request_work\<close> any number of times, each with a core count of at least 1, and
  nothing else. Then the blocks sent, in the order they were sent, start at 0, are non-empty
  and each begins right after the one before ends, up to the cursor; they are pairwise
  disjoint and lie inside \<open>[0, END_NUMBER]\<close>; and if \<^verbatim>\<open>no_work\<close> was ever sent, the cursor
  is \<open>END_NUMBER + 1\<close>, so the blocks tile the whole range.
\<close>

theorem requests_tile_the_range:
  assumes "\<forall>(c, n) \<in> set reqs. 1 \<le> n"
  shows "\<exists>s. run (map (\<lambda>(c, n). Request_work c (PInt n)) reqs) init = Some s
    \<and> tiles 0 (works (out s)) (current_number s)
    \<and> sorted_wrt (\<lambda>x y. snd x < fst y) (works (out s))
    \<and> (\<forall>b \<in> set (works (out s)). 0 \<le> fst b \<and> fst b \<le> snd b \<and> snd b \<le> END_NUMBER)
    \<and> current_number s \<le> END_NUMBER + 1
    \<and> ((\<exists>c. Send_message c No_work \<in> set (out s)) \<longrightarrow> current_number s = END_NUMBER + 1)"
proof -
  from covering_run [OF covering_init assms] obtain s
    where r: "run (map (\<lambda>(c, n). Request_work c (PInt n)) reqs) init = Some s"
      and c: "covering s"
    by blast
  from c have t: "tiles 0 (works (out s)) (current_number s)"
    by (simp add: covering_def)
  from tiles_bounds [OF t] c
  have "\<forall>b \<in> set (works (out s)). 0 \<le> fst b \<and> fst b \<le> snd b \<and> snd b \<le> END_NUMBER"
    by (fastforce simp: covering_def)
  with t tiles_disjoint [OF t] c r show ?thesis
    by (auto simp: covering_def)
qed

theorem requests_tile_the_range_witness:
  "case run (map (\<lambda>(c, n). Request_work c (PInt n)) [(1, 60000), (2, 60000), (1, 1)]) init of
     None \<Rightarrow> False
   | Some s \<Rightarrow>
       works (out s) = [(0, 5999999999), (6000000000, 9999999999)]
       \<and> tiles 0 (works (out s)) (current_number s)
       \<and> current_number s = END_NUMBER + 1"
proof -
  have h: "\<forall>(c, n) \<in> set [(1::nat, 60000::int), (2, 60000), (1, 1)]. 1 \<le> n"
    by simp
  from requests_tile_the_range [OF h] obtain s
    where r: "run (map (\<lambda>(c, n). Request_work c (PInt n))
        [(1, 60000), (2, 60000), (1, 1)]) init = Some s"
      and t: "tiles 0 (works (out s)) (current_number s)"
      and n: "(\<exists>c. Send_message c No_work \<in> set (out s)) \<longrightarrow> current_number s = END_NUMBER + 1"
    by blast
  have w: "map_option (\<lambda>s. works (out s)) (run (map (\<lambda>(c, n). Request_work c (PInt n))
        [(1, 60000), (2, 60000), (1, 1)]) init)
      = Some [(0, 5999999999), (6000000000, 9999999999)]"
    by (simp add: ev)
  have m: "map_option (\<lambda>s. Send_message 1 No_work \<in> set (out s))
        (run (map (\<lambda>(c, n). Request_work c (PInt n)) [(1, 60000), (2, 60000), (1, 1)]) init)
      = Some True"
    by (simp add: ev)
  from w r have "works (out s) = [(0, 5999999999), (6000000000, 9999999999)]"
    by simp
  moreover from m r n have "current_number s = END_NUMBER + 1"
    by auto
  ultimately show ?thesis using r t
    by simp
qed

text \<open>
  The claim as it is written, for every sequence of allocations, fails when a handler has
  registered a negative core count, which the code accepts: after
  \<^verbatim>\<open>{"type": "register", "cores": -1}\<close> the first block is \<open>(0, -100001)\<close>, the cursor
  moves back to \<open>-100000\<close>, and the next block, for one core, is \<open>(-100000, -1)\<close>, outside
  the range.
\<close>

theorem negative_cores_counterexample:
  "case run [Request_work 1 (PInt (- 1)), Request_work 1 (PInt 1)] init of
     None \<Rightarrow> False
   | Some s \<Rightarrow>
       works (out s) = [(0, - 100001), (- 100000, - 1)]
       \<and> \<not> tiles 0 (works (out s)) (current_number s)"
  by (simp add: ev)

section \<open>Release on disconnect\<close>




lemma cleanup_sets_cursor:
  "assigned_work s conn = Some w \<Longrightarrow>
     current_number (cleanup conn s) = w_start w \<and> assigned_work (cleanup conn s) conn = None
     \<and> (\<forall>c. c \<noteq> conn \<longrightarrow> assigned_work (cleanup conn s) c = assigned_work s c)"
  by (simp add: cleanup_def)




text \<open>
  C1. The \<^verbatim>\<open>finally\<close> block assigns \<^verbatim>\<open>current_number = work['start']\<close>; it takes no
  minimum. Connections 1 and 2 take \<open>(0, 99999)\<close> and \<open>(100000, 199999)\<close>; 1 disconnects
  and the cursor goes back to 0; then 2 disconnects, and the cursor moves forward from 0 to
  100000. The next block handed out is \<open>(100000, 199999)\<close>: the range of connection 1 is
  never given out again.
\<close>

theorem release_moves_cursor_forward:
  "map_option current_number (run [Request_work 1 (PInt 1), Request_work 2 (PInt 1), Cleanup 1] init) = Some 0
   \<and> map_option (\<lambda>s. assigned_work s 2) (run [Request_work 1 (PInt 1), Request_work 2 (PInt 1), Cleanup 1] init)
       = Some (Some \<lparr>w_start = 100000, w_end = 199999\<rparr>)
   \<and> map_option current_number (run [Request_work 1 (PInt 1), Request_work 2 (PInt 1), Cleanup 1, Cleanup 2] init) = Some 100000
   \<and> map_option (\<lambda>s. works (out s))
        (run [Request_work 1 (PInt 1), Request_work 2 (PInt 1), Cleanup 1, Cleanup 2, Request_work 3 (PInt 1)] init)
       = Some [(0, 99999), (100000, 199999), (100000, 199999)]"
  by (simp add: ev)

section \<open>A found message and the broadcast\<close>

text \<open>
  A \<^verbatim>\<open>found\<close> message whose \<^verbatim>\<open>number\<close> is a str with a lone surrogate, while
  \<^verbatim>\<open>found\<close> is false: the match is recorded, the \<^verbatim>\<open>print\<close> at line 103 raises, and
  \<^verbatim>\<open>notify_all_clients()\<close> is not reached.
\<close>

lemma unprintable_number_skips_the_broadcast:
  "process_message 2
     (PDict [(lit ''type'', PStr (lit ''found'')), (lit ''number'', PStr [0xD800])]) (PInt 1)
     (init\<lparr>clients := [(1, PInt 4)]\<rparr>)
   = (Some UnicodeEncodeError, PInt 1,
      init\<lparr>clients := [(1, PInt 4)], found := True, found_number := PStr [0xD800]\<rparr>)"
  by (simp add: process_message_def lit_def ev)

text \<open>
  C5, as the code has it. A \<^verbatim>\<open>found\<close> message that carries an integer
  \<^verbatim>\<open>number\<close> raises nothing, and its handling ends with \<^verbatim>\<open>notify_all_clients()\<close>
  whatever \<^verbatim>\<open>found\<close> was before: the trace grows by the line \<^verbatim>\<open>Found number\<close> only
  if \<^verbatim>\<open>found\<close> was false, and then in every case by one \<^verbatim>\<open>stop\<close> for each entry of
  \<^verbatim>\<open>clients\<close>.
\<close>

theorem found_message_notifies:
  assumes "subscr message (lit ''type'') = Inr (PStr (lit ''found''))"
    and "subscr message (lit ''number'') = Inr (PInt n)"
  shows "process_message conn message client_cores s
      = (None, client_cores, notify_all_clients (snd (record_found conn (Inr (PInt n)) s)))
    \<and> out (snd (snd (process_message conn message client_cores s)))
      = out s @ (if found s then [] else [Print (Found_number (PInt n))])
          @ map (\<lambda>client. Send_message (fst client) Stop) (clients s)"
  using assms
  by (simp add: process_message_def lit_def record_found_def notify_all_clients_def Let_def)

theorem found_message_notifies_witness:
  "case run [Register 1 (PDict [(lit ''type'', PStr (lit ''register'')), (lit ''cores'', PInt 4)])
           (PInt 1)] init of
     None \<Rightarrow> False
   | Some s \<Rightarrow>
       out (snd (snd (process_message 2
          (PDict [(lit ''type'', PStr (lit ''found'')), (lit ''number'', PInt 42)]) (PInt 1) s)))
       = [Print (Registered_client (PInt 4)), Print (Found_number (PInt 42)),
          Send_message 1 Stop]"
proof -
  have t: "subscr (PDict [(lit ''type'', PStr (lit ''found'')), (lit ''number'', PInt 42)])
      (lit ''type'') = Inr (PStr (lit ''found''))"
    by (simp add: lit_def)
  have n: "subscr (PDict [(lit ''type'', PStr (lit ''found'')), (lit ''number'', PInt 42)])
      (lit ''number'') = Inr (PInt 42)"
    by (simp add: lit_def)
  have r: "run [Register 1 (PDict [(lit ''type'', PStr (lit ''register'')), (lit ''cores'', PInt 4)])
           (PInt 1)] init
      = Some (init\<lparr>clients := [(1, PInt 4)], out := [Print (Registered_client (PInt 4))]\<rparr>)"
    by (simp add: ev lit_def)
  from found_message_notifies [OF t n, of 2 "PInt 1"
      "init\<lparr>clients := [(1, PInt 4)], out := [Print (Registered_client (PInt 4))]\<rparr>"]
  show ?thesis
    unfolding r by (simp add: ev)
qed

text \<open>
  The claim as it is written fails on a duplicate report: connection 1 is registered, a
  match has been recorded and broadcast, and a second \<^verbatim>\<open>found\<close> message, from
  connection 2, sends \<^verbatim>\<open>stop\<close> to connection 1 once more.
\<close>

theorem duplicate_found_counterexample:
  "case run [Register 1 (PDict [(lit ''type'', PStr (lit ''register'')), (lit ''cores'', PInt 4)])
           (PInt 1),
        Record_found 2 (Inr (PInt 42)), Notify_all_clients] init of
     None \<Rightarrow> False
   | Some s \<Rightarrow>
       found s
       \<and> out (snd (snd (process_message 2
            (PDict [(lit ''type'', PStr (lit ''found'')), (lit ''number'', PInt 42)]) (PInt 1) s)))
         = out s @ [Send_message 1 Stop]"
  by (simp add: ev lit_def process_message_def)

section \<open>Registration\<close>

text \<open>
  A \<^verbatim>\<open>register\<close> message whose \<^verbatim>\<open>cores\<close> is a str with a lone surrogate: the entry is
  appended, then the \<^verbatim>\<open>print\<close> at line 58 raises.
\<close>

lemma unprintable_cores_raise_after_append:
  "register 1 (PDict [(lit ''type'', PStr (lit ''register'')), (lit ''cores'', PStr [0xD800])])
     (PInt 1) init
   = (Some UnicodeEncodeError, PStr [0xD800], init\<lparr>clients := [(1, PStr [0xD800])]\<rparr>)"
  by (simp add: lit_def ev)

lemma run_register:
  assumes "subscr message (lit ''cores'') = Inr cores"
  shows "\<exists>s'. run (replicate n (Register conn message client_cores)) s = Some s'
      \<and> clients s' = clients s @ replicate n (conn, cores)"
proof (induction n arbitrary: s)
  case 0
  show ?case by simp
next
  case (Suc n)
  define s1 where "s1 = snd (snd (register conn message client_cores s))"
  from assms have c1: "clients s1 = clients s @ [(conn, cores)]"
    by (simp add: s1_def register_def Let_def)
  from Suc [of s1] obtain s'
    where "run (replicate n (Register conn message client_cores)) s1 = Some s'"
      and "clients s' = clients s1 @ replicate n (conn, cores)"
    by blast
  with c1 show ?case
    by (simp add: s1_def replicate_app_Cons_same)
qed

lemma count_stops:
  "count_list (map (\<lambda>client. Send_message (fst client) Stop) cs) (Send_message conn Stop)
     = count_list (map fst cs) conn"
  by (induction cs) auto

lemma count_replicate: "count_list (replicate n x) x = n"
  by (induction n) auto

text \<open>
  C10. Each \<^verbatim>\<open>register\<close> message that carries \<^verbatim>\<open>cores\<close> appends an entry for
  \<open>conn\<close> to \<^verbatim>\<open>clients\<close>; none is replaced. After \<open>n\<close> of them \<open>conn\<close> occurs \<open>n\<close>
  times more than before, and \<^verbatim>\<open>notify_all_clients\<close> then calls
  \<^verbatim>\<open>send_message(conn, stop)\<close> once for every occurrence: \<open>n\<close> times for a connection
  that was not in the list before.
\<close>

theorem register_appends:
  assumes "subscr message (lit ''cores'') = Inr cores"
  shows "\<exists>s'. run (replicate n (Register conn message client_cores)) s = Some s'
    \<and> clients s' = clients s @ replicate n (conn, cores)
    \<and> count_list (map fst (clients s')) conn = count_list (map fst (clients s)) conn + n
    \<and> out (notify_all_clients s')
        = out s' @ map (\<lambda>client. Send_message (fst client) Stop) (clients s')
    \<and> count_list (map (\<lambda>client. Send_message (fst client) Stop) (clients s'))
        (Send_message conn Stop) = count_list (map fst (clients s)) conn + n"
proof -
  from run_register [OF assms, of n conn client_cores s] obtain s'
    where "run (replicate n (Register conn message client_cores)) s = Some s'"
      and "clients s' = clients s @ replicate n (conn, cores)"
    by blast
  then show ?thesis
    by (simp add: count_stops count_replicate notify_all_clients_def)
qed

theorem register_appends_witness:
  "case run (replicate 3 (Register 5 (PDict [(lit ''type'', PStr (lit ''register'')),
       (lit ''cores'', PInt 4)]) (PInt 1))) init of
     None \<Rightarrow> False
   | Some s' \<Rightarrow>
       clients s' = [(5, PInt 4), (5, PInt 4), (5, PInt 4)]
       \<and> count_list (map (\<lambda>client. Send_message (fst client) Stop) (clients s'))
           (Send_message 5 Stop) = 3"
proof -
  have c: "subscr (PDict [(lit ''type'', PStr (lit ''register'')), (lit ''cores'', PInt 4)])
      (lit ''cores'') = Inr (PInt 4)"
    by (simp add: lit_def)
  from register_appends [OF c, of 3 5 "PInt 1" init] obtain s'
    where "run (replicate 3 (Register 5 (PDict [(lit ''type'', PStr (lit ''register'')),
       (lit ''cores'', PInt 4)]) (PInt 1))) init = Some s'"
      and "clients s' = clients init @ replicate 3 (5, PInt 4)"
      and "count_list (map (\<lambda>client. Send_message (fst client) Stop) (clients s'))
        (Send_message 5 Stop) = count_list (map fst (clients init)) 5 + 3"
    by blast
  then show ?thesis
    by (simp add: init_def numeral_3_eq_3)
qed

section \<open>Frames\<close>

lemma first_line:
  "10 \<notin> set frame \<Longrightarrow> takeWhile (\<lambda>c. c \<noteq> 10) (frame @ 10 # rest) = frame
     \<and> tl (dropWhile (\<lambda>c. c \<noteq> (10::nat)) (frame @ 10 # rest)) = rest"
  by (induction frame) auto

text \<open>
  C7, as the code has it. When the first line of the buffer is text that \<^verbatim>\<open>json.loads\<close>
  rejects with \<^verbatim>\<open>JSONDecodeError\<close>, the handler prints the diagnostic, changes nothing
  else, and goes on with the rest of the buffer in the same session.
\<close>

theorem malformed_json_is_dropped:
  assumes "10 \<notin> set frame" and "loads frame = Inl JSONDecodeError"
  shows "process_buffer loads conn (frame @ 10 # rest) client_cores s
      = process_buffer loads conn rest client_cores (s\<lparr>out := out s @ [Print Json_decode_error]\<rparr>)"
  using assms
  by (subst process_buffer.simps) (simp add: first_line Let_def)

theorem malformed_json_is_dropped_witness:
  "process_buffer (\<lambda>m. Inl JSONDecodeError) 0 [120, 10] (PInt 1) init
     = (None, [], PInt 1, init\<lparr>out := [Print Json_decode_error]\<rparr>)"
proof -
  have a: "10 \<notin> set [120::nat]"
    by simp
  have b: "(\<lambda>m::str. (Inl JSONDecodeError :: error + pyval)) [120] = Inl JSONDecodeError"
    by simp
  from malformed_json_is_dropped [of "[120]" "\<lambda>m. Inl JSONDecodeError", OF a b, of 0 "[]" "PInt 1" init]
  show ?thesis
    by (simp add: init_def)
qed

lemma raising_message_ends_the_session:
  assumes "10 \<notin> set frame" and "loads frame = Inr message"
    and "process_message conn message client_cores s = (Some e, cc, s')"
  shows "process_buffer loads conn (frame @ 10 # rest) client_cores s = (Some e, rest, cc, s')"
  using assms
  by (subst process_buffer.simps) (simp add: first_line Let_def)

text \<open>
  The claim as it is written covers every frame that is no valid message. The frame
  \<^verbatim>\<open>{}\<close> is valid JSON and decodes to the empty dict; \<^verbatim>\<open>message['type']\<close> raises
  \<^verbatim>\<open>KeyError\<close>, which only the outer \<^verbatim>\<open>except Exception\<close> catches: the session
  prints the error, cleans up and closes the socket, and the line that follows in the
  stream is never read.
\<close>

theorem empty_object_counterexample:
  "process_message 0 (PDict []) (PInt 1) init = (Some KeyError, PInt 1, init)
   \<and> handle_client (\<lambda>m. if m = [123, 125] then Inr (PDict []) else Inl JSONDecodeError) 0
        [Data [0x7B, 0x7D, 0x0A], Data [0x78, 0x0A]] init
      = Some (init\<lparr>out := [Print Client_connected, Print (Error_with_client KeyError), Close 0,
                            Print Client_disconnected]\<rparr>)"
proof -
  have p: "process_message 0 (PDict []) (PInt 1) s = (Some KeyError, PInt 1, s)" for s
    by (simp add: process_message_def)
  have b: "process_buffer (\<lambda>m. if m = [123, 125] then Inr (PDict []) else Inl JSONDecodeError) 0
      ([123, 125] @ 10 # []) (PInt 1) s = (Some KeyError, [], PInt 1, s)" for s
    by (rule raising_message_ends_the_session [OF _ _ p]) simp_all
  have d: "decode [0x7B, 0x7D, 0x0A] = Some [123, 125, 10]"
    by simp
  from p b d show ?thesis
    by (simp add: handle_client_def cleanup_def init_def)
qed

text \<open>
  C9. Line 39 decodes each received chunk on its own. The line
  \<^verbatim>\<open>{"type":"request_work","id":"\<close>, the two bytes C3 A9 of a single character,
  \<^verbatim>\<open>"}\<close> and a line feed, received in one chunk, is one frame and is answered
  with the first block. Received in two chunks that part between C3 and A9, the first
  chunk does not decode: the session ends with \<^verbatim>\<open>UnicodeDecodeError\<close> and no frame is
  processed. The hypothesis says what \<^verbatim>\<open>json.loads\<close> returns for the text of the line.
\<close>

theorem chunk_split_inside_character:
  assumes "loads [123, 34, 116, 121, 112, 101, 34, 58, 34, 114, 101, 113, 117, 101,
                115, 116, 95, 119, 111, 114, 107, 34, 44, 34, 105, 100, 34, 58, 34,
                233, 34, 125]
      = Inr (PDict [(lit ''type'', PStr (lit ''request_work'')), (lit ''id'', PStr [233])])"
  shows "map_option out (handle_client loads conn
        [Data [0x7B, 0x22, 0x74, 0x79, 0x70, 0x65, 0x22, 0x3A, 0x22, 0x72, 0x65,
              0x71, 0x75, 0x65, 0x73, 0x74, 0x5F, 0x77, 0x6F, 0x72, 0x6B, 0x22,
              0x2C, 0x22, 0x69, 0x64, 0x22, 0x3A, 0x22, 0xC3, 0xA9, 0x22, 0x7D,
              0x0A]] init)
      = Some [Print Client_connected, Send_message conn (Work 0 99999 TARGET_HASH), Close conn,
              Print Client_disconnected]
    \<and> map_option out (handle_client loads conn
        [Data [0x7B, 0x22, 0x74, 0x79, 0x70, 0x65, 0x22, 0x3A, 0x22, 0x72, 0x65,
              0x71, 0x75, 0x65, 0x73, 0x74, 0x5F, 0x77, 0x6F, 0x72, 0x6B, 0x22,
              0x2C, 0x22, 0x69, 0x64, 0x22, 0x3A, 0x22, 0xC3],
         Data [0xA9, 0x22, 0x7D, 0x0A]] init)
      = Some [Print Client_connected, Print (Error_with_client UnicodeDecodeError), Close conn,
              Print Client_disconnected]"
proof -
  have d: "decode [0x7B, 0x22, 0x74, 0x79, 0x70, 0x65, 0x22, 0x3A, 0x22, 0x72, 0x65,
              0x71, 0x75, 0x65, 0x73, 0x74, 0x5F, 0x77, 0x6F, 0x72, 0x6B, 0x22,
              0x2C, 0x22, 0x69, 0x64, 0x22, 0x3A, 0x22, 0xC3, 0xA9, 0x22, 0x7D,
              0x0A]
      = Some ([123, 34, 116, 121, 112, 101, 34, 58, 34, 114, 101, 113, 117, 101,
              115, 116, 95, 119, 111, 114, 107, 34, 44, 34, 105, 100, 34, 58, 34,
              233, 34, 125] @ [10])"
    by (simp add: cont_def)
  have n: "decode [0x7B, 0x22, 0x74, 0x79, 0x70, 0x65, 0x22, 0x3A, 0x22, 0x72, 0x65,
              0x71, 0x75, 0x65, 0x73, 0x74, 0x5F, 0x77, 0x6F, 0x72, 0x6B, 0x22,
              0x2C, 0x22, 0x69, 0x64, 0x22, 0x3A, 0x22, 0xC3] = None"
    by (simp add: cont_def)
  have m: "process_message conn (PDict [(lit ''type'', PStr (lit ''request_work'')), (lit ''id'', PStr [233])]) (PInt 1) s
      = (case request_work conn (PInt 1) s of (e, s') \<Rightarrow> (e, PInt 1, s'))" for s
    by (simp add: process_message_def lit_def)
  have b: "process_buffer loads conn
      ([123, 34, 116, 121, 112, 101, 34, 58, 34, 114, 101, 113, 117, 101, 115, 116,
        95, 119, 111, 114, 107, 34, 44, 34, 105, 100, 34, 58, 34, 233, 34, 125] @ 10 # []) (PInt 1) s
      = (None, [], PInt 1, snd (request_work conn (PInt 1) s))" if "\<not> found s" for s
    using assms that
    by (subst process_buffer.simps, subst process_buffer.simps)
       (simp add: m request_work_def Let_def split: prod.splits)
  have nf: "\<not> found (init\<lparr>out := out init @ [Print Client_connected]\<rparr>)"
    by (simp add: init_def)
  have r: "recv_loop loads conn
        [Data [0x7B, 0x22, 0x74, 0x79, 0x70, 0x65, 0x22, 0x3A, 0x22, 0x72, 0x65,
              0x71, 0x75, 0x65, 0x73, 0x74, 0x5F, 0x77, 0x6F, 0x72, 0x6B, 0x22,
              0x2C, 0x22, 0x69, 0x64, 0x22, 0x3A, 0x22, 0xC3, 0xA9, 0x22, 0x7D,
              0x0A]] [] (PInt 1)
        (init\<lparr>out := out init @ [Print Client_connected]\<rparr>)
      = (None, snd (request_work conn (PInt 1)
           (init\<lparr>out := out init @ [Print Client_connected]\<rparr>)))"
    using b [OF nf] by (simp del: decode.simps add: d)
  have whole: "map_option out (handle_client loads conn
        [Data [0x7B, 0x22, 0x74, 0x79, 0x70, 0x65, 0x22, 0x3A, 0x22, 0x72, 0x65,
              0x71, 0x75, 0x65, 0x73, 0x74, 0x5F, 0x77, 0x6F, 0x72, 0x6B, 0x22,
              0x2C, 0x22, 0x69, 0x64, 0x22, 0x3A, 0x22, 0xC3, 0xA9, 0x22, 0x7D,
              0x0A]] init)
      = Some [Print Client_connected, Send_message conn (Work 0 99999 TARGET_HASH), Close conn,
              Print Client_disconnected]"
    unfolding handle_client_def r
    by (simp add: ev)
  have split: "map_option out (handle_client loads conn
        [Data [0x7B, 0x22, 0x74, 0x79, 0x70, 0x65, 0x22, 0x3A, 0x22, 0x72, 0x65,
              0x71, 0x75, 0x65, 0x73, 0x74, 0x5F, 0x77, 0x6F, 0x72, 0x6B, 0x22,
              0x2C, 0x22, 0x69, 0x64, 0x22, 0x3A, 0x22, 0xC3],
         Data [0xA9, 0x22, 0x7D, 0x0A]] init)
      = Some [Print Client_connected, Print (Error_with_client UnicodeDecodeError), Close conn,
              Print Client_disconnected]"
    by (simp add: handle_client_def n cleanup_def init_def)
  from whole split show ?thesis
    by simp
qed

theorem chunk_split_inside_character_witness:
  "map_option out (handle_client
        (\<lambda>m. if m = [123, 34, 116, 121, 112, 101, 34, 58, 34, 114, 101, 113, 117,
                    101, 115, 116, 95, 119, 111, 114, 107, 34, 44, 34, 105, 100, 34,
                    58, 34, 233, 34, 125]
             then Inr (PDict [(lit ''type'', PStr (lit ''request_work'')), (lit ''id'', PStr [233])])
             else Inl JSONDecodeError) 7
        [Data [0x7B, 0x22, 0x74, 0x79, 0x70, 0x65, 0x22, 0x3A, 0x22, 0x72, 0x65,
              0x71, 0x75, 0x65, 0x73, 0x74, 0x5F, 0x77, 0x6F, 0x72, 0x6B, 0x22,
              0x2C, 0x22, 0x69, 0x64, 0x22, 0x3A, 0x22, 0xC3],
         Data [0xA9, 0x22, 0x7D, 0x0A]] init)
      = Some [Print Client_connected, Print (Error_with_client UnicodeDecodeError), Close 7,
              Print Client_disconnected]"
  using chunk_split_inside_character
    [of "\<lambda>m::str. if m = [123, 34, 116, 121, 112, 101, 34, 58, 34, 114, 101, 113, 117,
                    101, 115, 116, 95, 119, 111, 114, 107, 34, 44, 34, 105, 100, 34,
                    58, 34, 233, 34, 125]
             then Inr (PDict [(lit ''type'', PStr (lit ''request_work'')), (lit ''id'', PStr [233])])
             else Inl JSONDecodeError" 7]
  by simp

end
